theory Spec2Isabelle
  imports Main "HOL-Library.Word"
begin

section \<open>Pointers, directions, errors\<close>

text \<open>
  An object lives at an address. A C++ pointer that may be null is an \<open>addr option\<close>
  (\<open>None\<close> is the null pointer); a pointer that the code dereferences without a test is
  an \<open>addr\<close>.
\<close>

type_synonym addr = nat

text \<open>
  The unnamed enumeration of namespace \<open>QuadTreeNames\<close> (quadtree.h, lines 54-65). Its
  enumerators are used as plain \<open>int\<close>s throughout (\<open>const int& direction\<close>), so they are
  integer constants here; the qualified name \<open>QuadTreeNames::N\<close> is written
  \<open>QuadTreeNames_N\<close>.
\<close>

definition QuadTreeNames_SW :: int where "QuadTreeNames_SW = 0"
definition QuadTreeNames_SE :: int where "QuadTreeNames_SE = 1"
definition QuadTreeNames_NW :: int where "QuadTreeNames_NW = 2"
definition QuadTreeNames_NE :: int where "QuadTreeNames_NE = 3"
definition QuadTreeNames_N :: int where "QuadTreeNames_N = 4"
definition QuadTreeNames_E :: int where "QuadTreeNames_E = 5"
definition QuadTreeNames_S :: int where "QuadTreeNames_S = 6"
definition QuadTreeNames_W :: int where "QuadTreeNames_W = 7"
definition QuadTreeNames_OMEGA :: int where "QuadTreeNames_OMEGA = 26"

text \<open>\<open>const int Tree::OMEGA = 26\<close> (tree.cc, line 52).\<close>

definition OMEGA :: int where "OMEGA = 26"

text \<open>
  What a call can end with instead of a value. \<open>OomphLibError\<close> is the exception the code
  throws, with the three arguments of its constructor: the message, the function
  (\<open>OOMPH_CURRENT_FUNCTION\<close>) and the location (\<open>OOMPH_EXCEPTION_LOCATION\<close>). The two macros
  are not defined in the sources at hand, so every function that throws takes their two
  expansions as parameters. \<open>Range_error\<close> stands for an index outside a \<open>Vector\<close>: a range
  error of the \<open>Vector\<close> class where it checks, undefined behaviour where it does not; in
  both cases the call yields no value. \<open>Deleted_twice\<close> stands for a \<open>delete\<close> of an object
  that has been deleted already, which is undefined behaviour: the call yields no value
  either.
\<close>

datatype error =
    OomphLibError (error_message: string) (current_function: string) (exception_location: string)
  | Range_error
  | Deleted_twice addr

text \<open>\<open>Vector<T>::operator[]\<close> with a (signed) \<open>int\<close> index.\<close>

definition Vector_at :: "'a list \<Rightarrow> int \<Rightarrow> error + 'a" where
  "Vector_at v i = (if 0 \<le> i \<and> i < int (length v) then Inr (v ! nat i) else Inl Range_error)"

text \<open>\<open>v[i] = x\<close> for an index that is in range (as every index the code writes to is).\<close>

definition Vector_set :: "'a list \<Rightarrow> int \<Rightarrow> 'a \<Rightarrow> 'a list" where
  "Vector_set v i x = v[nat i := x]"

section \<open>Elements and the record of calls\<close>

text \<open>
  Modelled from the spec: \<open>RefineableElement\<close> is declared in refineable_elements.h, which
  is not among the sources. The spec gives it the tree back-reference
  (\<open>set_tree_pt\<close>/\<open>tree_pt\<close>, the element-to-tree pointer) and the element-local flag that
  \<open>sons_to_be_unrefined()\<close> reads and \<open>deselect_sons_for_unrefinement()\<close> clears.
\<close>

record RefineableElement =
  Tree_pt :: "addr option"
  Sons_to_be_unrefined :: bool

text \<open>
  The calls the tree makes on its collaborators whose bodies are virtual
  (\<open>rebuild_from_sons\<close>, \<open>unbuild\<close>), the deallocations (\<open>delete\<close> of an element, of a
  tree node) and the two element setters, in program order. The argument is the address of
  the object the call is made on; \<open>Rebuild_from_sons\<close> also carries the mesh pointer it is
  passed, \<open>Set_tree_pt\<close> the tree pointer.
\<close>

datatype event =
    Set_tree_pt addr addr
  | Rebuild_from_sons addr "addr option"
  | Unbuild addr
  | Delete_object addr
  | Delete_tree addr
  | Deselect_sons_for_unrefinement addr

text \<open>The part of the program state outside the tree: the elements, and the calls so far.\<close>

record world =
  element :: "addr \<Rightarrow> RefineableElement"
  trace :: "event list"

definition emit :: "event \<Rightarrow> world \<Rightarrow> world" where
  "emit e w = w\<lparr>trace := trace w @ [e]\<rparr>"

text \<open>Modelled from the spec: \<open>object_pt->set_tree_pt(my_tree_pt)\<close>, a setter.\<close>

definition set_tree_pt :: "addr \<Rightarrow> addr \<Rightarrow> world \<Rightarrow> world" where
  "set_tree_pt object_pt my_tree_pt w =
     emit (Set_tree_pt object_pt my_tree_pt)
       (w\<lparr>element := (element w)(object_pt := (element w object_pt)\<lparr>Tree_pt := Some my_tree_pt\<rparr>)\<rparr>)"

text \<open>Modelled from the spec: \<open>object_pt->tree_pt()\<close>, the getter.\<close>

definition tree_pt :: "addr \<Rightarrow> world \<Rightarrow> addr option" where
  "tree_pt object_pt w = Tree_pt (element w object_pt)"

text \<open>Modelled from the spec: \<open>object_pt->sons_to_be_unrefined()\<close> reads the flag.\<close>

definition sons_to_be_unrefined :: "addr \<Rightarrow> world \<Rightarrow> bool" where
  "sons_to_be_unrefined object_pt w = Sons_to_be_unrefined (element w object_pt)"

text \<open>Modelled from the spec: \<open>object_pt->deselect_sons_for_unrefinement()\<close> clears it.\<close>

definition deselect_sons_for_unrefinement :: "addr \<Rightarrow> world \<Rightarrow> world" where
  "deselect_sons_for_unrefinement object_pt w =
     emit (Deselect_sons_for_unrefinement object_pt)
       (w\<lparr>element := (element w)(object_pt := (element w object_pt)\<lparr>Sons_to_be_unrefined := False\<rparr>)\<rparr>)"

text \<open>
  \<open>rebuild_from_sons(mesh_pt)\<close> and \<open>unbuild()\<close> are virtual functions of the element
  family; the tree only calls them. \<open>delete object_pt\<close> runs the element's destructor and
  frees it. Each is recorded.
\<close>

definition rebuild_from_sons :: "addr \<Rightarrow> addr option \<Rightarrow> world \<Rightarrow> world" where
  "rebuild_from_sons object_pt mesh_pt w = emit (Rebuild_from_sons object_pt mesh_pt) w"

definition unbuild :: "addr \<Rightarrow> world \<Rightarrow> world" where
  "unbuild object_pt w = emit (Unbuild object_pt) w"

definition delete_object :: "addr \<Rightarrow> world \<Rightarrow> world" where
  "delete_object object_pt w = emit (Delete_object object_pt) w"

section \<open>Tree (tree.cc)\<close>

text \<open>
  A \<open>Tree\<close> node with the data members the code in tree.cc assigns: \<open>Object_pt\<close>,
  \<open>Father_pt\<close>, \<open>Root_pt\<close>, \<open>Son_type\<close>, \<open>Level\<close> and \<open>Son_pt\<close>. A father owns its sons
  (no two trees share a son), so \<open>Son_pt\<close> holds the son nodes themselves, in order; the
  pointers that lead upwards (\<open>Father_pt\<close>, \<open>Root_pt\<close>) are addresses, and \<open>this\<close> is the
  node's own address. \<open>Level\<close> is a machine integer: \<open>father_pt->Level + 1\<close> is computed in
  32 bits (two's complement, read by \<open>sint\<close>).
\<close>

datatype Tree = Tree_node
  (this: addr)
  (Object_pt: addr)
  (Father_pt: "addr option")
  (Root_pt: "addr option")
  (Son_type: int)
  (Level: "32 word")
  (Son_pt: "Tree list")

text \<open>\<open>Tree::Tree(RefineableElement* const& object_pt)\<close>, tree.cc lines 66-85.\<close>

definition Tree_ctor :: "addr \<Rightarrow> addr \<Rightarrow> world \<Rightarrow> Tree \<times> world" where
  "Tree_ctor this_pt object_pt w =
     (Tree_node this_pt object_pt None None OMEGA 0 [], set_tree_pt object_pt this_pt w)"

text \<open>
  \<open>Tree::Tree(RefineableElement* const& object_pt, Tree* const& father_pt,
  const int& son_type)\<close>, tree.cc lines 94-116. The father is dereferenced
  (\<open>father_pt->Level\<close>, \<open>father_pt->Root_pt\<close>), so the node it points to is the argument, and
  its address is \<open>this father\<close>.
\<close>

definition Tree_ctor_son :: "addr \<Rightarrow> addr \<Rightarrow> Tree \<Rightarrow> int \<Rightarrow> world \<Rightarrow> Tree \<times> world" where
  "Tree_ctor_son this_pt object_pt father son_type w =
     (Tree_node this_pt object_pt (Some (this father)) (Root_pt father) son_type
        (Level father + 1) [],
      set_tree_pt object_pt this_pt w)"

text \<open>\<open>Son_pt.resize(0)\<close>, and more generally an assignment to \<open>Son_pt\<close>.\<close>

definition set_Son_pt :: "Tree list \<Rightarrow> Tree \<Rightarrow> Tree" where
  "set_Son_pt sons t =
     Tree_node (this t) (Object_pt t) (Father_pt t) (Root_pt t) (Son_type t) (Level t) sons"

text \<open>
  \<open>Tree::~Tree()\<close>, tree.cc lines 124-141. \<open>delete Son_pt[i]\<close> runs the son's destructor
  and then frees the son; \<open>delete Object_pt\<close> is guarded by \<open>nsons > 0\<close>. (The null
  assignments to members of the dying node are not observable.)
\<close>

fun Tree_dtor :: "Tree \<Rightarrow> world \<Rightarrow> world" where
  "Tree_dtor (Tree_node this_pt object_pt father_pt root_pt son_type level son_pt) w =
     (let nsons = length son_pt;
          w' = fold (\<lambda>son w. emit (Delete_tree (this son)) (Tree_dtor son w)) son_pt w
      in if nsons > 0 then delete_object object_pt w' else w')"

text \<open>\<open>delete tree_pt\<close> for a pointer to a \<open>Tree\<close>: the destructor, then the deallocation.\<close>

definition delete_tree :: "Tree \<Rightarrow> world \<Rightarrow> world" where
  "delete_tree t w = emit (Delete_tree (this t)) (Tree_dtor t w)"

text \<open>
  \<open>Tree::traverse_leaves(Tree::VoidMemberFctPt member_function)\<close>, tree.cc lines 206-223.
  The member function is called on a node: it may change that node and the state outside
  the tree, so it maps the node and a state to the new node and the new state. The
  traversal hands back the tree with every visited node as the member function left it.
  The second overload (lines 230-248) passes \<open>mesh_pt\<close> along to the member function and
  is the same function with \<open>member_function\<close> applied to the mesh pointer first.
\<close>

fun traverse_leaves :: "(Tree \<Rightarrow> 's \<Rightarrow> Tree \<times> 's) \<Rightarrow> Tree \<Rightarrow> 's \<Rightarrow> Tree \<times> 's"
  and traverse_leaves_sons :: "(Tree \<Rightarrow> 's \<Rightarrow> Tree \<times> 's) \<Rightarrow> Tree list \<Rightarrow> 's \<Rightarrow> Tree list \<times> 's"
  where
  "traverse_leaves member_function (Tree_node this_pt object_pt father_pt root_pt son_type level son_pt) s =
     (let numsons = length son_pt
      in if numsons > 0
         then (let (sons', s') = traverse_leaves_sons member_function son_pt s
               in (Tree_node this_pt object_pt father_pt root_pt son_type level sons', s'))
         else member_function (Tree_node this_pt object_pt father_pt root_pt son_type level son_pt) s)"
| "traverse_leaves_sons member_function [] s = ([], s)"
| "traverse_leaves_sons member_function (son # sons) s =
     (let (son', s') = traverse_leaves member_function son s;
          (sons', s'') = traverse_leaves_sons member_function sons s'
      in (son' # sons', s''))"

text \<open>
  \<open>Tree::stick_leaves_into_vector(Vector<Tree*>& tree_nodes)\<close>, tree.cc lines 254-270. The
  vector holds pointers to nodes; here it holds the nodes pointed to.
\<close>

fun stick_leaves_into_vector :: "Tree \<Rightarrow> Tree list \<Rightarrow> Tree list" where
  "stick_leaves_into_vector (Tree_node this_pt object_pt father_pt root_pt son_type level son_pt)
       tree_nodes =
     (let numsons = length son_pt
      in if numsons > 0
         then fold stick_leaves_into_vector son_pt tree_nodes
         else tree_nodes @ [Tree_node this_pt object_pt father_pt root_pt son_type level son_pt])"

text \<open>
  \<open>Tree::stick_all_tree_nodes_into_vector(Vector<Tree*>& all_tree_nodes)\<close>, tree.cc lines
  276-290.
\<close>

fun stick_all_tree_nodes_into_vector :: "Tree \<Rightarrow> Tree list \<Rightarrow> Tree list" where
  "stick_all_tree_nodes_into_vector
       (Tree_node this_pt object_pt father_pt root_pt son_type level son_pt) all_tree_nodes =
     (let all_tree_nodes' =
            all_tree_nodes @ [Tree_node this_pt object_pt father_pt root_pt son_type level son_pt];
          numsons = length son_pt
      in if numsons > 0
         then fold stick_all_tree_nodes_into_vector son_pt all_tree_nodes'
         else all_tree_nodes')"

text \<open>
  The loop of \<open>Tree::merge_sons_if_required\<close>, tree.cc lines 312-326 ("Kill all the
  sons"). For each son in turn: \<open>unbuild()\<close> on the son's element (line 315), \<open>delete\<close>
  of the son's element (line 322), \<open>delete\<close> of the son (line 325). The last runs the son's
  destructor: when that deletes the element that line 322 has just deleted (as it does
  for a son that has sons, lines 136-139), the object is deleted a second time and the
  call has no result.
\<close>

fun kill_all_the_sons :: "Tree list \<Rightarrow> world \<Rightarrow> error + world" where
  "kill_all_the_sons [] w = Inr w"
| "kill_all_the_sons (son # sons) w =
     (let w1 = unbuild (Object_pt son) w;
          w2 = delete_object (Object_pt son) w1;
          w3 = delete_tree son w2
      in if Delete_object (Object_pt son) \<in> set (drop (length (trace w2)) (trace w3))
         then Inl (Deleted_twice (Object_pt son))
         else kill_all_the_sons sons w3)"

text \<open>\<open>Tree::merge_sons_if_required(Mesh*& mesh_pt)\<close>, tree.cc lines 301-333.\<close>

definition merge_sons_if_required ::
  "addr option \<Rightarrow> Tree \<Rightarrow> world \<Rightarrow> error + Tree \<times> world" where
  "merge_sons_if_required mesh_pt t w =
     (if sons_to_be_unrefined (Object_pt t) w
      then (let w1 = rebuild_from_sons (Object_pt t) mesh_pt w
            in case kill_all_the_sons (Son_pt t) w1 of
                 Inl e \<Rightarrow> Inl e
               | Inr w2 \<Rightarrow>
                   (let t' = set_Son_pt [] t;
                        w3 = deselect_sons_for_unrefinement (Object_pt t') w2
                    in Inr (t', w3)))
      else Inr (t, w))"

text \<open>
  Modelled from the spec: the split operation (\<open>Tree::split_if_required\<close> is a template in
  tree.h, which is not among the sources). A node whose element asks for refinement gets
  its sons from the factory hook \<open>construct_son(object, father, son_type)\<close>, one per new
  element, with the son types 0, 1, ... in order and itself as the father.
  \<open>to_be_refined\<close> is the element's answer; \<open>new_sons t\<close> lists, for each son to be made,
  the address \<open>new\<close> gives the son node and the address of the son's new element.
  Only \<open>construct_son\<close> below is from the sources (quadtree.h lines 118-124).
\<close>

fun construct_sons ::
  "(addr \<Rightarrow> addr \<Rightarrow> Tree \<Rightarrow> int \<Rightarrow> world \<Rightarrow> Tree \<times> world) \<Rightarrow>
     Tree \<Rightarrow> (addr \<times> addr) list \<Rightarrow> int \<Rightarrow> world \<Rightarrow> Tree list \<times> world" where
  "construct_sons factory father [] i_son w = ([], w)"
| "construct_sons factory father ((this_pt, object_pt) # rest) i_son w =
     (let (son, w') = factory this_pt object_pt father i_son w;
          (sons, w'') = construct_sons factory father rest (i_son + 1) w'
      in (son # sons, w''))"

definition split_if_required ::
  "(addr \<Rightarrow> addr \<Rightarrow> Tree \<Rightarrow> int \<Rightarrow> world \<Rightarrow> Tree \<times> world) \<Rightarrow>
     (addr \<Rightarrow> bool) \<Rightarrow> (Tree \<Rightarrow> (addr \<times> addr) list) \<Rightarrow> Tree \<Rightarrow> world \<Rightarrow> Tree \<times> world"
  where
  "split_if_required factory to_be_refined new_sons t w =
     (if to_be_refined (Object_pt t)
      then (let (sons, w') = construct_sons factory t (new_sons t) 0 w
            in (set_Son_pt sons t, w'))
      else (t, w))"

section \<open>QuadTree, QuadTreeRoot, QuadTreeForest (quadtree.h)\<close>

text \<open>
  \<open>QuadTree::QuadTree()\<close>, quadtree.h lines 203-209, and
  \<open>QuadTreeForest::QuadTreeForest()\<close>, lines 412-419: the body throws. Before the body
  runs, the base class (\<open>Tree\<close>, \<open>TreeForest\<close>; tree.h is not among the sources) is
  default-constructed; \<open>base\<close> is the outcome of that, and an exception of the base's
  constructor is the outcome of the whole.
\<close>

definition QuadTree_default_ctor :: "error + unit \<Rightarrow> string \<Rightarrow> string \<Rightarrow> error + Tree" where
  "QuadTree_default_ctor base fn loc =
     (case base of
        Inl e \<Rightarrow> Inl e
      | Inr u \<Rightarrow> Inl (OomphLibError ''Don't call an empty constructor for a QuadTree object'' fn loc))"

text \<open>A forest is the vector of its trees' addresses (\<open>Vector<TreeRoot*> Trees_pt\<close>).\<close>

record QuadTreeForest =
  Trees_pt :: "addr list"

definition QuadTreeForest_default_ctor ::
  "error + unit \<Rightarrow> string \<Rightarrow> string \<Rightarrow> error + QuadTreeForest" where
  "QuadTreeForest_default_ctor base fn loc =
     (case base of
        Inl e \<Rightarrow> Inl e
      | Inr u \<Rightarrow>
          Inl (OomphLibError ''Don't call an empty constructor for a QuadTreeForest object'' fn loc))"

text \<open>
  \<open>QuadTree::construct_son\<close>, quadtree.h lines 118-124: \<open>new QuadTree(object_pt, father_pt,
  son_type)\<close>, whose constructor (lines 224-229) is the \<open>Tree\<close> constructor with a father.
  \<open>this_pt\<close> is the address \<open>new\<close> returns.
\<close>

definition construct_son :: "addr \<Rightarrow> addr \<Rightarrow> Tree \<Rightarrow> int \<Rightarrow> world \<Rightarrow> Tree \<times> world" where
  "construct_son this_pt object_pt father son_type w =
     Tree_ctor_son this_pt object_pt father son_type w"

text \<open>
  A \<open>QuadTreeRoot\<close>: the \<open>Tree\<close> sub-object, \<open>TreeRoot\<close>'s \<open>Neighbour_pt\<close> (read by
  \<open>Neighbour_pt[direction]\<close>; a direction without an entry reads as the null pointer) and
  the vector \<open>North_equivalent\<close>.
\<close>

record QuadTreeRoot =
  tree :: Tree
  Neighbour_pt :: "int \<Rightarrow> addr option"
  North_equivalent :: "int list"

text \<open>
  Modelled from the spec: \<open>TreeRoot::TreeRoot(object_pt)\<close> is in tree.h, which is not among
  the sources. The root pointer is set there ("Root pointer must be set in the TreeRoot
  constructor", tree.cc line 77), and no neighbour is known yet.
\<close>

definition TreeRoot_ctor :: "Tree \<Rightarrow> QuadTreeRoot" where
  "TreeRoot_ctor t =
     \<lparr>tree = Tree_node (this t) (Object_pt t) (Father_pt t) (Some (this t)) (Son_type t)
               (Level t) (Son_pt t),
      Neighbour_pt = (\<lambda>d. None),
      North_equivalent = []\<rparr>"

definition static_data_message :: string where
  "static_data_message =
     ''Static member data hasn't been setup yet.\<newline>'' @
     ''Call QuadTree::setup_static_data() before creating\<newline>'' @
     ''any QuadTreeRoots\<newline>''"

text \<open>
  \<open>QuadTreeRoot::QuadTreeRoot(RefineableElement* const& object_pt)\<close>, quadtree.h lines
  309-335. \<open>PARANOID\<close> says whether the macro of that name is defined where the header is
  compiled; \<open>Static_data_has_been_setup\<close> is the static flag of \<open>QuadTree\<close>. The virtual
  base \<open>Tree(object_pt)\<close> is built first, then \<open>QuadTree\<close> and \<open>TreeRoot\<close>, then the body
  runs. \<open>resize(27)\<close> fills the new vector with zeros.
\<close>

definition QuadTreeRoot_ctor ::
  "bool \<Rightarrow> bool \<Rightarrow> string \<Rightarrow> string \<Rightarrow> addr \<Rightarrow> addr \<Rightarrow> world \<Rightarrow> (error + QuadTreeRoot) \<times> world"
  where
  "QuadTreeRoot_ctor PARANOID Static_data_has_been_setup fn loc this_pt object_pt w =
     (let (t, w') = Tree_ctor this_pt object_pt w;
          r = TreeRoot_ctor t
      in if PARANOID \<and> \<not> Static_data_has_been_setup
         then (Inl (OomphLibError static_data_message fn loc), w')
         else
           (let ne0 = replicate 27 0;
                ne1 = Vector_set ne0 QuadTreeNames_N QuadTreeNames_N;
                ne2 = Vector_set ne1 QuadTreeNames_E QuadTreeNames_N;
                ne3 = Vector_set ne2 QuadTreeNames_W QuadTreeNames_N;
                ne4 = Vector_set ne3 QuadTreeNames_S QuadTreeNames_N
            in (Inr (r\<lparr>North_equivalent := ne4\<rparr>), w')))"

text \<open>
  \<open>int& QuadTreeRoot::north_equivalent(const int& neighbour)\<close>, quadtree.h lines 354-372.
  \<open>Direct_string\<close> is the static table of direction names (filled by
  \<open>setup_static_data()\<close>, which is not among the sources), read while the message is built.
  The value returned is the entry the C++ reference refers to.
\<close>

definition north_equivalent ::
  "bool \<Rightarrow> string list \<Rightarrow> string \<Rightarrow> string \<Rightarrow> QuadTreeRoot \<Rightarrow> int \<Rightarrow> error + int" where
  "north_equivalent PARANOID Direct_string fn loc r neighbour =
     (if PARANOID \<and> neighbour \<noteq> QuadTreeNames_S \<and> neighbour \<noteq> QuadTreeNames_N \<and>
         neighbour \<noteq> QuadTreeNames_W \<and> neighbour \<noteq> QuadTreeNames_E
      then (case Vector_at Direct_string neighbour of
              Inl e \<Rightarrow> Inl e
            | Inr name \<Rightarrow>
                Inl (OomphLibError (''The neighbour can only be N,S,E,W, not'' @ name @ ''\<newline>'')
                       fn loc))
      else Vector_at (North_equivalent r) neighbour)"

text \<open>
  \<open>int QuadTreeRoot::direction_of_neighbour(QuadTreeRoot* quadtree_root_pt)\<close>, quadtree.h
  lines 377-398. Inside the class the unqualified \<open>OMEGA\<close> is the static member
  \<open>Tree::OMEGA\<close>; \<open>N\<close>, \<open>E\<close>, \<open>S\<close> and \<open>W\<close> come from \<open>QuadTreeNames\<close>.
\<close>

definition direction_of_neighbour :: "QuadTreeRoot \<Rightarrow> addr option \<Rightarrow> int" where
  "direction_of_neighbour r quadtree_root_pt =
     (if Neighbour_pt r QuadTreeNames_N = quadtree_root_pt then QuadTreeNames_N
      else if Neighbour_pt r QuadTreeNames_E = quadtree_root_pt then QuadTreeNames_E
      else if Neighbour_pt r QuadTreeNames_S = quadtree_root_pt then QuadTreeNames_S
      else if Neighbour_pt r QuadTreeNames_W = quadtree_root_pt then QuadTreeNames_W
      else OMEGA)"

section \<open>Vocabulary of the statements\<close>

text \<open>The events recorded between two states of the world.\<close>

definition added :: "world \<Rightarrow> world \<Rightarrow> event list" where
  "added w w' = drop (length (trace w)) (trace w')"

text \<open>
  The level invariant on a whole tree: every son is one level below its father and points
  back to it.
\<close>

fun level_invariant :: "Tree \<Rightarrow> bool" where
  "level_invariant (Tree_node this_pt object_pt father_pt root_pt son_type level son_pt) =
     list_all (\<lambda>son. Level son = level + 1 \<and> Father_pt son = Some this_pt \<and> level_invariant son)
       son_pt"

text \<open>A world in which no element has a tree and nothing has been called yet.\<close>

definition initial_world :: world where
  "initial_world = \<lparr>element = (\<lambda>a. \<lparr>Tree_pt = None, Sons_to_be_unrefined = False\<rparr>), trace = []\<rparr>"

text \<open>
  A member function made to note every node it is called on, after doing what it does:
  the state gets a second component, the list of the nodes of the calls so far.
\<close>

definition recording ::
  "(Tree \<Rightarrow> 's \<Rightarrow> Tree \<times> 's) \<Rightarrow> Tree \<Rightarrow> 's \<times> Tree list \<Rightarrow> Tree \<times> 's \<times> Tree list" where
  "recording member_function n = (\<lambda>(s, calls).
     let (n', s') = member_function n s in (n', s', calls @ [n]))"

section \<open>Basic facts\<close>

lemmas QuadTreeNames_defs =
  QuadTreeNames_SW_def QuadTreeNames_SE_def QuadTreeNames_NW_def QuadTreeNames_NE_def
  QuadTreeNames_N_def QuadTreeNames_E_def QuadTreeNames_S_def QuadTreeNames_W_def
  QuadTreeNames_OMEGA_def

lemma QuadTreeRoot_ctor_North_equivalent:
  assumes "fst (QuadTreeRoot_ctor PARANOID Static_data_has_been_setup fn loc this_pt object_pt w) = Inr r"
  shows "North_equivalent r = (replicate 27 0)[4 := 4, 5 := 4, 7 := 4, 6 := 4]"
  using assms
  by (auto simp: QuadTreeRoot_ctor_def Tree_ctor_def TreeRoot_ctor_def Vector_set_def
      QuadTreeNames_defs Let_def split: if_splits)

lemma QuadTreeRoot_ctor_length:
  assumes "fst (QuadTreeRoot_ctor PARANOID Static_data_has_been_setup fn loc this_pt object_pt w) = Inr r"
  shows "length (North_equivalent r) = 27"
  using QuadTreeRoot_ctor_North_equivalent [OF assms] by simp

section \<open>Empty constructors\<close>

text \<open>
  C8. The default constructor of \<open>QuadTree\<close>, and that of \<open>QuadTreeForest\<close>, always ends
  in an error and never in an object, whatever the construction of the base class did;
  where the body is reached, the error is the \<open>OomphLibError\<close> of the body, carrying the
  function and the location it was given.
\<close>

theorem empty_constructors_throw:
  "isl (QuadTree_default_ctor base fn loc) \<and>
   isl (QuadTreeForest_default_ctor base' fn' loc') \<and>
   QuadTree_default_ctor (Inr ()) fn loc =
     Inl (OomphLibError ''Don't call an empty constructor for a QuadTree object'' fn loc) \<and>
   QuadTreeForest_default_ctor (Inr ()) fn' loc' =
     Inl (OomphLibError ''Don't call an empty constructor for a QuadTreeForest object'' fn' loc') \<and>
   current_function (projl (QuadTree_default_ctor (Inr ()) fn loc)) = fn \<and>
   exception_location (projl (QuadTree_default_ctor (Inr ()) fn loc)) = loc \<and>
   current_function (projl (QuadTreeForest_default_ctor (Inr ()) fn' loc')) = fn' \<and>
   exception_location (projl (QuadTreeForest_default_ctor (Inr ()) fn' loc')) = loc'"
  by (simp add: QuadTree_default_ctor_def QuadTreeForest_default_ctor_def split: sum.split)

section \<open>QuadTreeRoot\<close>

text \<open>
  C6, as the claim states it, fails: compiled without \<open>PARANOID\<close>, the constructor does not
  look at the flag, and a \<open>QuadTreeRoot\<close> is produced although the static data has not
  been set up.
\<close>

theorem QuadTreeRoot_ctor_without_PARANOID:
  "\<not> isl (fst (QuadTreeRoot_ctor False False ''QuadTreeRoot'' ''quadtree.h'' 10 20 initial_world))"
  by (simp add: QuadTreeRoot_ctor_def Tree_ctor_def Let_def)

text \<open>
  C6, amended. Compiled with \<open>PARANOID\<close>, constructing a \<open>QuadTreeRoot\<close> while the static
  data has not been set up throws the \<open>OomphLibError\<close> with the message about
  \<open>setup_static_data()\<close>, the function and the location, and no \<open>QuadTreeRoot\<close> is
  produced; the constructor fails in no other case.
\<close>

theorem QuadTreeRoot_ctor_PARANOID:
  "(PARANOID \<and> \<not> Static_data_has_been_setup \<longrightarrow>
      fst (QuadTreeRoot_ctor PARANOID Static_data_has_been_setup fn loc this_pt object_pt w) =
        Inl (OomphLibError static_data_message fn loc)) \<and>
   isl (fst (QuadTreeRoot_ctor PARANOID Static_data_has_been_setup fn loc this_pt object_pt w)) =
     (PARANOID \<and> \<not> Static_data_has_been_setup)"
  by (simp add: QuadTreeRoot_ctor_def Tree_ctor_def Let_def)

theorem QuadTreeRoot_ctor_PARANOID_witness:
  "fst (QuadTreeRoot_ctor True False ''QuadTreeRoot'' ''quadtree.h'' 10 20 initial_world) =
     Inl (OomphLibError static_data_message ''QuadTreeRoot'' ''quadtree.h'') \<and>
   isl (fst (QuadTreeRoot_ctor True True ''QuadTreeRoot'' ''quadtree.h'' 10 20 initial_world)) = False"
  using QuadTreeRoot_ctor_PARANOID [of True False "''QuadTreeRoot''" "''quadtree.h''" 10 20 initial_world]
    QuadTreeRoot_ctor_PARANOID [of True True "''QuadTreeRoot''" "''quadtree.h''" 10 20 initial_world]
  by simp

text \<open>
  C7, as the claim states it, fails: compiled without \<open>PARANOID\<close>, \<open>north_equivalent(SW)\<close>
  on a freshly constructed root is no error; it returns the entry stored at index
  \<open>SW\<close>, which \<open>resize(27)\<close> set to 0.
\<close>

theorem north_equivalent_without_PARANOID:
  "north_equivalent False [] ''north_equivalent'' ''quadtree.h''
     (projr (fst (QuadTreeRoot_ctor False True ''QuadTreeRoot'' ''quadtree.h'' 10 20 initial_world)))
     QuadTreeNames_SW = Inr 0"
  by (simp add: north_equivalent_def QuadTreeRoot_ctor_def Tree_ctor_def TreeRoot_ctor_def
      Let_def Vector_at_def Vector_set_def QuadTreeNames_defs)

text \<open>
  C7, amended. On a \<open>QuadTreeRoot\<close> as its constructor leaves it (27 entries in
  \<open>North_equivalent\<close>): compiled with \<open>PARANOID\<close>, \<open>north_equivalent(d)\<close> for a direction
  \<open>d\<close> other than N, S, E, W that has a name in \<open>Direct_string\<close> throws the \<open>OomphLibError\<close>
  naming the direction, with the function and the location; with or without \<open>PARANOID\<close>,
  for \<open>d\<close> among N, S, E, W the call returns the entry stored for \<open>d\<close>.
\<close>

theorem north_equivalent_PARANOID:
  assumes "length (North_equivalent r) = 27"
  shows
    "(PARANOID \<and> d \<notin> {QuadTreeNames_N, QuadTreeNames_S, QuadTreeNames_E, QuadTreeNames_W} \<and>
      0 \<le> d \<and> d < int (length Direct_string) \<longrightarrow>
        north_equivalent PARANOID Direct_string fn loc r d =
          Inl (OomphLibError
                 (''The neighbour can only be N,S,E,W, not'' @ Direct_string ! nat d @ ''\<newline>'')
                 fn loc)) \<and>
     (d \<in> {QuadTreeNames_N, QuadTreeNames_S, QuadTreeNames_E, QuadTreeNames_W} \<longrightarrow>
        north_equivalent PARANOID Direct_string fn loc r d = Inr (North_equivalent r ! nat d))"
  using assms
  by (auto simp: north_equivalent_def Vector_at_def QuadTreeNames_defs)

theorem north_equivalent_PARANOID_witness:
  "north_equivalent True (replicate 27 ''?'') ''north_equivalent'' ''quadtree.h''
     (projr (fst (QuadTreeRoot_ctor True True ''QuadTreeRoot'' ''quadtree.h'' 10 20 initial_world)))
     QuadTreeNames_SW =
     Inl (OomphLibError ''The neighbour can only be N,S,E,W, not?\<newline>''
            ''north_equivalent'' ''quadtree.h'') \<and>
   north_equivalent True (replicate 27 ''?'') ''north_equivalent'' ''quadtree.h''
     (projr (fst (QuadTreeRoot_ctor True True ''QuadTreeRoot'' ''quadtree.h'' 10 20 initial_world)))
     QuadTreeNames_W = Inr QuadTreeNames_N"
proof -
  let ?c = "QuadTreeRoot_ctor True True ''QuadTreeRoot'' ''quadtree.h'' 10 20 initial_world"
  have built: "fst ?c = Inr (projr (fst ?c))"
    by (simp add: QuadTreeRoot_ctor_def Tree_ctor_def Let_def)
  have ne: "North_equivalent (projr (fst ?c)) = (replicate 27 0)[4 := 4, 5 := 4, 7 := 4, 6 := 4]"
    by (rule QuadTreeRoot_ctor_North_equivalent [OF built])
  have len: "length (North_equivalent (projr (fst ?c))) = 27"
    by (rule QuadTreeRoot_ctor_length [OF built])
  have r7: "(replicate 27 (0::int))[4 := 4, 5 := 4, 7 := 4, 6 := 4] ! 7 = 4"
    by code_simp
  show ?thesis
    using north_equivalent_PARANOID [OF len, of True QuadTreeNames_SW "replicate 27 ''?''"
        "''north_equivalent''" "''quadtree.h''"]
      north_equivalent_PARANOID [OF len, of True QuadTreeNames_W "replicate 27 ''?''"
        "''north_equivalent''" "''quadtree.h''"]
    by (simp add: QuadTreeNames_defs ne r7)
qed

text \<open>
  C10. \<open>direction_of_neighbour(p)\<close> returns the first of N, E, S, W (in this order) whose
  neighbour pointer equals \<open>p\<close>, and \<open>OMEGA\<close> exactly when none of the four does. So for
  the null pointer \<open>p\<close> and a root with a null neighbour pointer the result is a direction
  of such a boundary, not \<open>OMEGA\<close>; and when several pointers equal \<open>p\<close> (a periodic root
  that is its own neighbour), the earliest direction is the result.
\<close>

theorem direction_of_neighbour_first_match:
  "direction_of_neighbour r p =
     (case find (\<lambda>d. Neighbour_pt r d = p)
             [QuadTreeNames_N, QuadTreeNames_E, QuadTreeNames_S, QuadTreeNames_W] of
        Some d \<Rightarrow> d
      | None \<Rightarrow> OMEGA) \<and>
   (direction_of_neighbour r p = OMEGA) =
     (\<forall>d \<in> {QuadTreeNames_N, QuadTreeNames_E, QuadTreeNames_S, QuadTreeNames_W}.
        Neighbour_pt r d \<noteq> p) \<and>
   ((\<exists>d \<in> {QuadTreeNames_N, QuadTreeNames_E, QuadTreeNames_S, QuadTreeNames_W}.
        Neighbour_pt r d = None) \<longrightarrow>
      direction_of_neighbour r None \<noteq> OMEGA \<and>
      Neighbour_pt r (direction_of_neighbour r None) = None) \<and>
   (Neighbour_pt r QuadTreeNames_N = p \<longrightarrow> direction_of_neighbour r p = QuadTreeNames_N) \<and>
   OMEGA = QuadTreeNames_OMEGA"
  by (auto simp: direction_of_neighbour_def QuadTreeNames_defs OMEGA_def)

theorem direction_of_neighbour_first_match_witness:
  "direction_of_neighbour
     \<lparr>tree = Tree_node 10 20 None (Some 10) OMEGA 0 [],
      Neighbour_pt = (\<lambda>d. None)(QuadTreeNames_N := Some 10, QuadTreeNames_S := Some 10,
                                 QuadTreeNames_W := Some 30),
      North_equivalent = replicate 27 0\<rparr> None = QuadTreeNames_E \<and>
   direction_of_neighbour
     \<lparr>tree = Tree_node 10 20 None (Some 10) OMEGA 0 [],
      Neighbour_pt = (\<lambda>d. None)(QuadTreeNames_N := Some 10, QuadTreeNames_S := Some 10,
                                 QuadTreeNames_W := Some 30),
      North_equivalent = replicate 27 0\<rparr> (Some 10) = QuadTreeNames_N \<and>
   direction_of_neighbour
     \<lparr>tree = Tree_node 10 20 None (Some 10) OMEGA 0 [],
      Neighbour_pt = (\<lambda>d. None)(QuadTreeNames_N := Some 10, QuadTreeNames_S := Some 10,
                                 QuadTreeNames_W := Some 30),
      North_equivalent = replicate 27 0\<rparr> (Some 40) = OMEGA"
  using direction_of_neighbour_first_match
    [of "\<lparr>tree = Tree_node 10 20 None (Some 10) OMEGA 0 [],
      Neighbour_pt = (\<lambda>d. None)(QuadTreeNames_N := Some 10, QuadTreeNames_S := Some 10,
                                 QuadTreeNames_W := Some 30),
      North_equivalent = replicate 27 0\<rparr>"]
  by (simp add: QuadTreeNames_defs OMEGA_def)

section \<open>The record of calls only grows\<close>

lemma trace_emit: "trace (emit e w) = trace w @ [e]"
  by (simp add: emit_def)

lemma element_emit: "element (emit e w) = element w"
  by (simp add: emit_def)

lemma emit_append: "emit e (w\<lparr>trace := trace w @ es\<rparr>) = w\<lparr>trace := trace w @ es @ [e]\<rparr>"
  by (simp add: emit_def)

lemma Tree_dtor_sel:
  "Tree_dtor t w =
     (let w' = fold (\<lambda>son w. emit (Delete_tree (this son)) (Tree_dtor son w)) (Son_pt t) w
      in if Son_pt t \<noteq> [] then delete_object (Object_pt t) w' else w')"
  by (cases t) (simp add: Let_def)

lemma fold_delete_sons:
  assumes "\<And>son w. son \<in> set sons \<Longrightarrow> Tree_dtor son w = w\<lparr>trace := trace w @ ev son\<rparr>"
  shows "fold (\<lambda>son w. emit (Delete_tree (this son)) (Tree_dtor son w)) sons w =
           w\<lparr>trace := trace w @ concat (map (\<lambda>son. ev son @ [Delete_tree (this son)]) sons)\<rparr>"
  using assms
proof (induction sons arbitrary: w)
  case Nil
  then show ?case by simp
next
  case (Cons son sons)
  have "Tree_dtor son w = w\<lparr>trace := trace w @ ev son\<rparr>"
    by (rule Cons.prems) simp
  then show ?case
    using Cons.IH Cons.prems by (simp add: emit_append)
qed

lemma Tree_dtor_appends:
  "Tree_dtor t w = w\<lparr>trace := trace w @ trace (Tree_dtor t initial_world)\<rparr>"
proof (induction t arbitrary: w)
  case (Tree_node this_pt object_pt father_pt root_pt son_type level son_pt)
  let ?ev = "\<lambda>son. trace (Tree_dtor son initial_world)"
  let ?node = "Tree_node this_pt object_pt father_pt root_pt son_type level son_pt"
  have sons: "fold (\<lambda>son w. emit (Delete_tree (this son)) (Tree_dtor son w)) son_pt w =
      w\<lparr>trace := trace w @ concat (map (\<lambda>son. ?ev son @ [Delete_tree (this son)]) son_pt)\<rparr>" for w
    by (rule fold_delete_sons) (rule Tree_node.IH)
  have eq: "Tree_dtor ?node w =
      w\<lparr>trace := trace w @ concat (map (\<lambda>son. ?ev son @ [Delete_tree (this son)]) son_pt) @
        (if son_pt = [] then [] else [Delete_object object_pt])\<rparr>" for w
    by (simp add: sons Let_def) (simp add: delete_object_def emit_def)
  show ?case
    by (simp only: eq [of w] eq [of initial_world]) (simp add: initial_world_def)
qed

lemma added_Tree_dtor: "added w (Tree_dtor t w) = trace (Tree_dtor t initial_world)"
  by (subst Tree_dtor_appends) (simp add: added_def)

lemma element_Tree_dtor: "element (Tree_dtor t w) = element w"
  by (subst Tree_dtor_appends) simp

lemma Tree_dtor_events:
  "trace (Tree_dtor t initial_world) =
     concat (map (\<lambda>son. trace (Tree_dtor son initial_world) @ [Delete_tree (this son)]) (Son_pt t)) @
     (if Son_pt t = [] then [] else [Delete_object (Object_pt t)])"
proof -
  have "fold (\<lambda>son w. emit (Delete_tree (this son)) (Tree_dtor son w)) (Son_pt t) initial_world =
      initial_world\<lparr>trace := trace initial_world @
        concat (map (\<lambda>son. trace (Tree_dtor son initial_world) @ [Delete_tree (this son)]) (Son_pt t))\<rparr>"
    by (rule fold_delete_sons) (rule Tree_dtor_appends)
  then show ?thesis
    by (subst Tree_dtor_sel) (simp add: delete_object_def emit_def initial_world_def)
qed

section \<open>The two vectors of nodes\<close>

lemma stick_all_sel:
  "stick_all_tree_nodes_into_vector t v =
     (if Son_pt t \<noteq> [] then fold stick_all_tree_nodes_into_vector (Son_pt t) (v @ [t]) else v @ [t])"
  by (cases t) (simp add: Let_def)

lemma stick_leaves_sel:
  "stick_leaves_into_vector t v =
     (if Son_pt t \<noteq> [] then fold stick_leaves_into_vector (Son_pt t) v else v @ [t])"
  by (cases t) (simp add: Let_def)

lemma fold_appends:
  assumes "\<And>x v. x \<in> set xs \<Longrightarrow> f x v = v @ g x"
  shows "fold f xs v = v @ concat (map g xs)"
  using assms by (induction xs arbitrary: v) simp_all

lemma stick_all_append:
  "stick_all_tree_nodes_into_vector t v = v @ stick_all_tree_nodes_into_vector t []"
proof (induction t arbitrary: v)
  case (Tree_node this_pt object_pt father_pt root_pt son_type level son_pt)
  have sons: "fold stick_all_tree_nodes_into_vector son_pt v =
      v @ concat (map (\<lambda>son. stick_all_tree_nodes_into_vector son []) son_pt)" for v
    by (rule fold_appends) (rule Tree_node.IH)
  show ?case
    by (simp add: sons Let_def)
qed

lemma stick_all_nodes:
  "stick_all_tree_nodes_into_vector t [] =
     t # concat (map (\<lambda>son. stick_all_tree_nodes_into_vector son []) (Son_pt t))"
proof -
  have "fold stick_all_tree_nodes_into_vector (Son_pt t) v =
      v @ concat (map (\<lambda>son. stick_all_tree_nodes_into_vector son []) (Son_pt t))" for v
    by (rule fold_appends) (rule stick_all_append)
  then show ?thesis
    by (subst stick_all_sel) simp
qed

lemma stick_leaves_append:
  "stick_leaves_into_vector t v = v @ stick_leaves_into_vector t []"
proof (induction t arbitrary: v)
  case (Tree_node this_pt object_pt father_pt root_pt son_type level son_pt)
  have sons: "fold stick_leaves_into_vector son_pt v =
      v @ concat (map (\<lambda>son. stick_leaves_into_vector son []) son_pt)" for v
    by (rule fold_appends) (rule Tree_node.IH)
  show ?case
    by (simp add: sons Let_def)
qed

lemma stick_leaves_nodes:
  "stick_leaves_into_vector t [] =
     (if Son_pt t = [] then [t]
      else concat (map (\<lambda>son. stick_leaves_into_vector son []) (Son_pt t)))"
proof -
  have "fold stick_leaves_into_vector (Son_pt t) v =
      v @ concat (map (\<lambda>son. stick_leaves_into_vector son []) (Son_pt t))" for v
    by (rule fold_appends) (rule stick_leaves_append)
  then show ?thesis
    by (subst stick_leaves_sel) simp
qed

lemma stick_leaves_filter:
  "stick_leaves_into_vector t [] =
     filter (\<lambda>n. Son_pt n = []) (stick_all_tree_nodes_into_vector t [])"
proof (induction t)
  case (Tree_node this_pt object_pt father_pt root_pt son_type level son_pt)
  have ih: "son \<in> set son_pt \<Longrightarrow> stick_leaves_into_vector son [] =
      filter (\<lambda>n. Son_pt n = []) (stick_all_tree_nodes_into_vector son [])" for son
    by (rule Tree_node.IH)
  show ?case
    by (subst stick_leaves_nodes, subst stick_all_nodes)
      (simp add: filter_concat comp_def ih cong: map_cong)
qed

lemma stick_all_hd_tl:
  "stick_all_tree_nodes_into_vector t [] = t # tl (stick_all_tree_nodes_into_vector t [])"
  using stick_all_nodes [of t] by simp

lemma tl_stick_all_nodes:
  "tl (stick_all_tree_nodes_into_vector t []) =
     concat (map (\<lambda>son. stick_all_tree_nodes_into_vector son []) (Son_pt t))"
  using stick_all_nodes [of t] by simp

section \<open>The destructor\<close>

lemma Delete_object_events:
  "Delete_object a \<in> set (trace (Tree_dtor t initial_world)) \<longleftrightarrow>
     (\<exists>n \<in> set (stick_all_tree_nodes_into_vector t []). Son_pt n \<noteq> [] \<and> Object_pt n = a)"
proof (induction t)
  case (Tree_node this_pt object_pt father_pt root_pt son_type level son_pt)
  let ?node = "Tree_node this_pt object_pt father_pt root_pt son_type level son_pt"
  have ih: "son \<in> set son_pt \<Longrightarrow>
      Delete_object a \<in> set (trace (Tree_dtor son initial_world)) \<longleftrightarrow>
      (\<exists>n \<in> set (stick_all_tree_nodes_into_vector son []). Son_pt n \<noteq> [] \<and> Object_pt n = a)" for son
    by (rule Tree_node.IH)
  have "Delete_object a \<in> set (trace (Tree_dtor ?node initial_world)) \<longleftrightarrow>
      (\<exists>son \<in> set son_pt. Delete_object a \<in> set (trace (Tree_dtor son initial_world))) \<or>
      (son_pt \<noteq> [] \<and> object_pt = a)"
    by (subst Tree_dtor_events) auto
  also have "\<dots> \<longleftrightarrow>
      (\<exists>son \<in> set son_pt. \<exists>n \<in> set (stick_all_tree_nodes_into_vector son []).
          Son_pt n \<noteq> [] \<and> Object_pt n = a) \<or> (son_pt \<noteq> [] \<and> object_pt = a)"
    using ih by blast
  also have "\<dots> \<longleftrightarrow>
      (\<exists>n \<in> set (stick_all_tree_nodes_into_vector ?node []). Son_pt n \<noteq> [] \<and> Object_pt n = a)"
    by (subst (2) stick_all_nodes) auto
  finally show ?case .
qed

lemma Delete_tree_events:
  "Delete_tree a \<in> set (trace (Tree_dtor t initial_world)) \<longleftrightarrow>
     (\<exists>n \<in> set (tl (stick_all_tree_nodes_into_vector t [])). this n = a)"
proof (induction t)
  case (Tree_node this_pt object_pt father_pt root_pt son_type level son_pt)
  let ?node = "Tree_node this_pt object_pt father_pt root_pt son_type level son_pt"
  have ih: "son \<in> set son_pt \<Longrightarrow>
      Delete_tree a \<in> set (trace (Tree_dtor son initial_world)) \<longleftrightarrow>
      (\<exists>n \<in> set (tl (stick_all_tree_nodes_into_vector son [])). this n = a)" for son
    by (rule Tree_node.IH)
  have nodes: "(\<exists>n \<in> set (stick_all_tree_nodes_into_vector son []). this n = a) \<longleftrightarrow>
      this son = a \<or> (\<exists>n \<in> set (tl (stick_all_tree_nodes_into_vector son [])). this n = a)" for son
    by (subst stick_all_hd_tl) simp
  have "Delete_tree a \<in> set (trace (Tree_dtor ?node initial_world)) \<longleftrightarrow>
      (\<exists>son \<in> set son_pt.
          Delete_tree a \<in> set (trace (Tree_dtor son initial_world)) \<or> this son = a)"
    by (subst Tree_dtor_events) auto
  also have "\<dots> \<longleftrightarrow>
      (\<exists>son \<in> set son_pt. \<exists>n \<in> set (stick_all_tree_nodes_into_vector son []). this n = a)"
    unfolding nodes using ih by blast
  also have "\<dots> \<longleftrightarrow> (\<exists>n \<in> set (tl (stick_all_tree_nodes_into_vector ?node [])). this n = a)"
    unfolding tl_stick_all_nodes by auto
  finally show ?case .
qed

text \<open>
  C3. What destroying a node \<open>t\<close> adds to the record: for each son in turn, all that
  destroying the son adds and then the deallocation of the son, and only after all the
  sons, and only if there is a son, the \<open>delete\<close> of the node's own element. Nothing else
  changes. Every node below \<open>t\<close> is freed; the elements deleted are those of the nodes
  with a son, \<open>t\<close> included. Where every node has an element of its own, the element of
  a node is deleted if and only if the node has a son: the element of a leaf is never
  deleted.
\<close>

theorem Tree_dtor_sons_first:
  "added w (Tree_dtor t w) =
     concat (map (\<lambda>son. added w (Tree_dtor son w) @ [Delete_tree (this son)]) (Son_pt t)) @
     (if Son_pt t = [] then [] else [Delete_object (Object_pt t)]) \<and>
   element (Tree_dtor t w) = element w \<and>
   {a. Delete_tree a \<in> set (added w (Tree_dtor t w))} =
     this ` set (tl (stick_all_tree_nodes_into_vector t [])) \<and>
   {a. Delete_object a \<in> set (added w (Tree_dtor t w))} =
     Object_pt ` {n \<in> set (stick_all_tree_nodes_into_vector t []). Son_pt n \<noteq> []} \<and>
   (distinct (map Object_pt (stick_all_tree_nodes_into_vector t [])) \<longrightarrow>
      (\<forall>n \<in> set (stick_all_tree_nodes_into_vector t []).
         (Delete_object (Object_pt n) \<in> set (added w (Tree_dtor t w))) = (Son_pt n \<noteq> [])))"
proof -
  have order: "added w (Tree_dtor t w) =
     concat (map (\<lambda>son. added w (Tree_dtor son w) @ [Delete_tree (this son)]) (Son_pt t)) @
     (if Son_pt t = [] then [] else [Delete_object (Object_pt t)])"
    unfolding added_Tree_dtor by (rule Tree_dtor_events)
  have trees: "{a. Delete_tree a \<in> set (added w (Tree_dtor t w))} =
     this ` set (tl (stick_all_tree_nodes_into_vector t []))"
    unfolding added_Tree_dtor using Delete_tree_events [of _ t] by auto
  have objects: "{a. Delete_object a \<in> set (added w (Tree_dtor t w))} =
     Object_pt ` {n \<in> set (stick_all_tree_nodes_into_vector t []). Son_pt n \<noteq> []}"
    unfolding added_Tree_dtor using Delete_object_events [of _ t] by auto
  have own: "(Delete_object (Object_pt n) \<in> set (added w (Tree_dtor t w))) = (Son_pt n \<noteq> [])"
    if d: "distinct (map Object_pt (stick_all_tree_nodes_into_vector t []))"
      and n: "n \<in> set (stick_all_tree_nodes_into_vector t [])" for n
  proof -
    have inj: "inj_on Object_pt (set (stick_all_tree_nodes_into_vector t []))"
      using d by (simp add: distinct_map)
    have "Delete_object (Object_pt n) \<in> set (added w (Tree_dtor t w)) \<longleftrightarrow>
        (\<exists>m \<in> set (stick_all_tree_nodes_into_vector t []). Son_pt m \<noteq> [] \<and> Object_pt m = Object_pt n)"
      unfolding added_Tree_dtor by (rule Delete_object_events)
    also have "\<dots> \<longleftrightarrow> Son_pt n \<noteq> []"
      using inj n by (auto dest: inj_onD)
    finally show ?thesis .
  qed
  show ?thesis
    using order trees objects own element_Tree_dtor [of t w] by blast
qed

theorem Tree_dtor_sons_first_witness:
  "distinct (map Object_pt (stick_all_tree_nodes_into_vector
      (Tree_node 10 20 None (Some 10) OMEGA 0
        [Tree_node 11 21 (Some 10) (Some 10) 0 1 [],
         Tree_node 12 22 (Some 10) (Some 10) 1 1
           [Tree_node 13 23 (Some 12) (Some 10) 0 2 []]]) [])) \<and>
   added initial_world (Tree_dtor
      (Tree_node 10 20 None (Some 10) OMEGA 0
        [Tree_node 11 21 (Some 10) (Some 10) 0 1 [],
         Tree_node 12 22 (Some 10) (Some 10) 1 1
           [Tree_node 13 23 (Some 12) (Some 10) 0 2 []]]) initial_world) =
     [Delete_tree 11, Delete_tree 13, Delete_object 22, Delete_tree 12, Delete_object 20] \<and>
   Delete_object 21 \<notin> set (added initial_world (Tree_dtor
      (Tree_node 10 20 None (Some 10) OMEGA 0
        [Tree_node 11 21 (Some 10) (Some 10) 0 1 [],
         Tree_node 12 22 (Some 10) (Some 10) 1 1
           [Tree_node 13 23 (Some 12) (Some 10) 0 2 []]]) initial_world))"
  using Tree_dtor_sons_first [of initial_world
      "Tree_node 10 20 None (Some 10) OMEGA 0
        [Tree_node 11 21 (Some 10) (Some 10) 0 1 [],
         Tree_node 12 22 (Some 10) (Some 10) 1 1
           [Tree_node 13 23 (Some 12) (Some 10) 0 2 []]]"]
  by (simp add: added_def initial_world_def emit_def delete_object_def Let_def)

section \<open>Unrefinement\<close>

lemma Tree_dtor_leaf: "Son_pt son = [] \<Longrightarrow> Tree_dtor son w = w"
  by (subst Tree_dtor_sel) simp

lemma kill_all_the_sons_leaves:
  "list_all (\<lambda>son. Son_pt son = []) sons \<Longrightarrow>
     kill_all_the_sons sons w =
       Inr (w\<lparr>trace := trace w @
              concat (map (\<lambda>son. [Unbuild (Object_pt son), Delete_object (Object_pt son),
                                  Delete_tree (this son)]) sons)\<rparr>)"
proof (induction sons arbitrary: w)
  case Nil
  then show ?case by simp
next
  case (Cons son sons)
  let ?w2 = "delete_object (Object_pt son) (unbuild (Object_pt son) w)"
  have leaf: "Son_pt son = []" and rest: "list_all (\<lambda>son. Son_pt son = []) sons"
    using Cons.prems by simp_all
  have freed: "delete_tree son ?w2 =
      w\<lparr>trace := trace w @ [Unbuild (Object_pt son), Delete_object (Object_pt son),
        Delete_tree (this son)]\<rparr>"
    by (simp add: delete_tree_def Tree_dtor_leaf [OF leaf] delete_object_def unbuild_def emit_def)
  have before: "trace ?w2 = trace w @ [Unbuild (Object_pt son), Delete_object (Object_pt son)]"
    by (simp add: delete_object_def unbuild_def emit_def)
  have once: "Delete_object (Object_pt son) \<notin>
      set (drop (length (trace ?w2)) (trace (delete_tree son ?w2)))"
    by (simp add: freed before)
  have step: "kill_all_the_sons (son # sons) w = kill_all_the_sons sons (delete_tree son ?w2)"
    using once by (simp add: Let_def)
  show ?case
    by (simp only: step Cons.IH [OF rest]) (simp add: freed)
qed

text \<open>
  C1, as the claim states it, fails: it speaks of every node. Where a son has sons of its
  own, the element of that son is deleted in the loop and then once more by the son's
  destructor, so the call has no defined outcome; here the second son, at address 12 with
  its element at 22, has a son.
\<close>

theorem merge_sons_if_required_deletes_twice:
  "merge_sons_if_required (Some 50)
     (Tree_node 10 20 None (Some 10) OMEGA 0
        [Tree_node 11 21 (Some 10) (Some 10) 0 1 [],
         Tree_node 12 22 (Some 10) (Some 10) 1 1
           [Tree_node 13 23 (Some 12) (Some 10) 0 2 []]])
     (initial_world\<lparr>element := (element initial_world)
        (20 := \<lparr>Tree_pt = Some 10, Sons_to_be_unrefined = True\<rparr>)\<rparr>) =
   Inl (Deleted_twice 22)"
  by (simp add: merge_sons_if_required_def sons_to_be_unrefined_def initial_world_def Let_def
      rebuild_from_sons_def unbuild_def delete_object_def delete_tree_def emit_def)

text \<open>
  C1, amended. \<open>merge_sons_if_required(mesh_pt)\<close> on a node \<open>t\<close> does nothing at all when
  \<open>sons_to_be_unrefined()\<close> of its element is false: the node (sons, level, element) and
  the rest of the state are returned as they were. When it is true and the sons of \<open>t\<close>
  are leaves, the call succeeds and the calls made are, in this order:
  \<open>rebuild_from_sons(mesh_pt)\<close> on the element of \<open>t\<close>; for each son in turn \<open>unbuild()\<close> on
  the son's element, the \<open>delete\<close> of the son's element and the \<open>delete\<close> of the son; and
  last \<open>deselect_sons_for_unrefinement()\<close> on the element of \<open>t\<close>. The node is left without
  sons, with its level and its element, and the flag is down afterwards.
\<close>

theorem merge_sons_if_required_leaf_sons:
  "(\<not> sons_to_be_unrefined (Object_pt t) w \<longrightarrow>
      merge_sons_if_required mesh_pt t w = Inr (t, w)) \<and>
   (sons_to_be_unrefined (Object_pt t) w \<and> list_all (\<lambda>son. Son_pt son = []) (Son_pt t) \<longrightarrow>
      \<not> isl (merge_sons_if_required mesh_pt t w) \<and>
      fst (projr (merge_sons_if_required mesh_pt t w)) = set_Son_pt [] t \<and>
      Son_pt (fst (projr (merge_sons_if_required mesh_pt t w))) = [] \<and>
      Level (fst (projr (merge_sons_if_required mesh_pt t w))) = Level t \<and>
      Object_pt (fst (projr (merge_sons_if_required mesh_pt t w))) = Object_pt t \<and>
      added w (snd (projr (merge_sons_if_required mesh_pt t w))) =
        [Rebuild_from_sons (Object_pt t) mesh_pt] @
        concat (map (\<lambda>son. [Unbuild (Object_pt son), Delete_object (Object_pt son),
                            Delete_tree (this son)]) (Son_pt t)) @
        [Deselect_sons_for_unrefinement (Object_pt t)] \<and>
      \<not> sons_to_be_unrefined (Object_pt t) (snd (projr (merge_sons_if_required mesh_pt t w))))"
proof -
  let ?m = "merge_sons_if_required mesh_pt t w"
  let ?ev = "\<lambda>son. [Unbuild (Object_pt son), Delete_object (Object_pt son),
                    Delete_tree (this son)]"
  have no: "?m = Inr (t, w)" if "\<not> sons_to_be_unrefined (Object_pt t) w"
    using that by (simp add: merge_sons_if_required_def)
  have yes: "?m = Inr (set_Son_pt [] t,
      w\<lparr>element := (element w)(Object_pt t := (element w (Object_pt t))\<lparr>Sons_to_be_unrefined := False\<rparr>),
        trace := trace w @ [Rebuild_from_sons (Object_pt t) mesh_pt] @ concat (map ?ev (Son_pt t)) @
          [Deselect_sons_for_unrefinement (Object_pt t)]\<rparr>)"
    if "sons_to_be_unrefined (Object_pt t) w" and "list_all (\<lambda>son. Son_pt son = []) (Son_pt t)"
    using that(1)
    by (simp add: merge_sons_if_required_def Let_def kill_all_the_sons_leaves [OF that(2)]
        set_Son_pt_def rebuild_from_sons_def deselect_sons_for_unrefinement_def emit_def)
  have ev: "added w (snd (projr ?m)) =
      [Rebuild_from_sons (Object_pt t) mesh_pt] @ concat (map ?ev (Son_pt t)) @
      [Deselect_sons_for_unrefinement (Object_pt t)]"
    if "sons_to_be_unrefined (Object_pt t) w" and "list_all (\<lambda>son. Son_pt son = []) (Son_pt t)"
    by (simp add: yes [OF that] added_def)
  have flag: "\<not> sons_to_be_unrefined (Object_pt t) (snd (projr ?m))"
    if "sons_to_be_unrefined (Object_pt t) w" and "list_all (\<lambda>son. Son_pt son = []) (Son_pt t)"
    by (simp add: yes [OF that] sons_to_be_unrefined_def)
  have node: "\<not> isl ?m \<and> fst (projr ?m) = set_Son_pt [] t"
    if "sons_to_be_unrefined (Object_pt t) w" and "list_all (\<lambda>son. Son_pt son = []) (Son_pt t)"
    by (simp add: yes [OF that])
  show ?thesis
    using no ev flag node by (simp add: set_Son_pt_def del: append.simps)
qed

theorem merge_sons_if_required_leaf_sons_witness:
  "sons_to_be_unrefined 20
     (initial_world\<lparr>element := (element initial_world)
        (20 := \<lparr>Tree_pt = Some 10, Sons_to_be_unrefined = True\<rparr>)\<rparr>) \<and>
   list_all (\<lambda>son. Son_pt son = [])
     [Tree_node 11 21 (Some 10) (Some 10) QuadTreeNames_SW 1 [],
      Tree_node 12 22 (Some 10) (Some 10) QuadTreeNames_SE 1 [],
      Tree_node 13 23 (Some 10) (Some 10) QuadTreeNames_NW 1 [],
      Tree_node 14 24 (Some 10) (Some 10) QuadTreeNames_NE 1 []] \<and>
   added
     (initial_world\<lparr>element := (element initial_world)
        (20 := \<lparr>Tree_pt = Some 10, Sons_to_be_unrefined = True\<rparr>)\<rparr>)
     (snd (projr (merge_sons_if_required (Some 50)
        (Tree_node 10 20 None (Some 10) OMEGA 0
          [Tree_node 11 21 (Some 10) (Some 10) QuadTreeNames_SW 1 [],
           Tree_node 12 22 (Some 10) (Some 10) QuadTreeNames_SE 1 [],
           Tree_node 13 23 (Some 10) (Some 10) QuadTreeNames_NW 1 [],
           Tree_node 14 24 (Some 10) (Some 10) QuadTreeNames_NE 1 []])
        (initial_world\<lparr>element := (element initial_world)
           (20 := \<lparr>Tree_pt = Some 10, Sons_to_be_unrefined = True\<rparr>)\<rparr>)))) =
     [Rebuild_from_sons 20 (Some 50),
      Unbuild 21, Delete_object 21, Delete_tree 11,
      Unbuild 22, Delete_object 22, Delete_tree 12,
      Unbuild 23, Delete_object 23, Delete_tree 13,
      Unbuild 24, Delete_object 24, Delete_tree 14,
      Deselect_sons_for_unrefinement 20] \<and>
   fst (projr (merge_sons_if_required (Some 50)
        (Tree_node 10 20 None (Some 10) OMEGA 0
          [Tree_node 11 21 (Some 10) (Some 10) QuadTreeNames_SW 1 [],
           Tree_node 12 22 (Some 10) (Some 10) QuadTreeNames_SE 1 [],
           Tree_node 13 23 (Some 10) (Some 10) QuadTreeNames_NW 1 [],
           Tree_node 14 24 (Some 10) (Some 10) QuadTreeNames_NE 1 []])
        (initial_world\<lparr>element := (element initial_world)
           (20 := \<lparr>Tree_pt = Some 10, Sons_to_be_unrefined = True\<rparr>)\<rparr>))) =
     Tree_node 10 20 None (Some 10) OMEGA 0 [] \<and>
   \<not> sons_to_be_unrefined 21 initial_world \<and>
   merge_sons_if_required (Some 50)
     (Tree_node 11 21 (Some 10) (Some 10) QuadTreeNames_SW 1 []) initial_world =
     Inr (Tree_node 11 21 (Some 10) (Some 10) QuadTreeNames_SW 1 [], initial_world)"
  using
    merge_sons_if_required_leaf_sons [of
      "Tree_node 10 20 None (Some 10) OMEGA 0
          [Tree_node 11 21 (Some 10) (Some 10) QuadTreeNames_SW 1 [],
           Tree_node 12 22 (Some 10) (Some 10) QuadTreeNames_SE 1 [],
           Tree_node 13 23 (Some 10) (Some 10) QuadTreeNames_NW 1 [],
           Tree_node 14 24 (Some 10) (Some 10) QuadTreeNames_NE 1 []]"
      "initial_world\<lparr>element := (element initial_world)
           (20 := \<lparr>Tree_pt = Some 10, Sons_to_be_unrefined = True\<rparr>)\<rparr>"
      "Some 50"]
    merge_sons_if_required_leaf_sons [of
      "Tree_node 11 21 (Some 10) (Some 10) QuadTreeNames_SW 1 []" initial_world "Some 50"]
  by (simp add: sons_to_be_unrefined_def initial_world_def set_Son_pt_def
      merge_sons_if_required_def Let_def rebuild_from_sons_def unbuild_def delete_object_def
      delete_tree_def deselect_sons_for_unrefinement_def emit_def added_def)

section \<open>Traversal of the leaves\<close>

lemma traverse_leaves_sel:
  "traverse_leaves f t s =
     (if Son_pt t \<noteq> []
      then (let (sons', s') = traverse_leaves_sons f (Son_pt t) s in (set_Son_pt sons' t, s'))
      else f t s)"
  by (cases t) (simp add: Let_def set_Son_pt_def)

lemma traverse_leaves_recording:
  "traverse_leaves (recording f) t (s, calls) =
     (fst (traverse_leaves f t s), snd (traverse_leaves f t s),
      calls @ stick_leaves_into_vector t [])"
  and traverse_leaves_sons_recording:
  "traverse_leaves_sons (recording f) sons (s, calls) =
     (fst (traverse_leaves_sons f sons s), snd (traverse_leaves_sons f sons s),
      calls @ concat (map (\<lambda>son. stick_leaves_into_vector son []) sons))"
proof (induction f t s and f sons s arbitrary: calls and calls
    rule: traverse_leaves_traverse_leaves_sons.induct)
  case (1 member_function this_pt object_pt father_pt root_pt son_type level son_pt s)
  let ?node = "Tree_node this_pt object_pt father_pt root_pt son_type level son_pt"
  show ?case
  proof (cases "son_pt = []")
    case True
    then show ?thesis
      by (simp add: recording_def split: prod.split)
  next
    case False
    have leaves: "stick_leaves_into_vector ?node [] =
        concat (map (\<lambda>son. stick_leaves_into_vector son []) son_pt)"
      using False by (subst stick_leaves_nodes) simp
    show ?thesis
      using False "1.IH" [of "length son_pt" calls]
      by (simp add: leaves split: prod.split del: stick_leaves_into_vector.simps)
  qed
next
  case (2 member_function s)
  then show ?case by simp
next
  case (3 member_function son sons s)
  obtain son' s' where A: "traverse_leaves member_function son s = (son', s')"
    by force
  obtain sons' s'' where B: "traverse_leaves_sons member_function sons s' = (sons', s'')"
    by force
  have first: "traverse_leaves (recording member_function) son (s, calls) =
      (son', s', calls @ stick_leaves_into_vector son [])"
    using "3.IH"(1) [of calls] A by simp
  have others: "traverse_leaves_sons (recording member_function) sons
        (s', calls @ stick_leaves_into_vector son []) =
      (sons', s'', (calls @ stick_leaves_into_vector son []) @
         concat (map (\<lambda>son. stick_leaves_into_vector son []) sons))"
    using "3.IH"(2) [OF A [symmetric]] B by simp
  show ?case
    by (simp add: first others A B)
qed

text \<open>
  C5. \<open>traverse_leaves(f)\<close> does to the tree and the state what the calls of \<open>f\<close> do, and
  the nodes \<open>f\<close> is called on are, in the order of the calls, exactly the vector that
  \<open>stick_leaves_into_vector\<close> builds. That vector is what was in it before, followed by
  the nodes without sons of the preorder vector of \<open>stick_all_tree_nodes_into_vector\<close>, in
  the same order. So \<open>f\<close> is called on no node with sons, and, the nodes of a tree being
  at different addresses, on no node twice.
\<close>

theorem traverse_leaves_calls:
  "traverse_leaves (recording member_function) t (s, calls) =
     (fst (traverse_leaves member_function t s), snd (traverse_leaves member_function t s),
      calls @ stick_leaves_into_vector t []) \<and>
   stick_leaves_into_vector t tree_nodes =
     tree_nodes @ filter (\<lambda>n. Son_pt n = []) (stick_all_tree_nodes_into_vector t []) \<and>
   (\<forall>n \<in> set (stick_leaves_into_vector t []). Son_pt n = []) \<and>
   (distinct (map this (stick_all_tree_nodes_into_vector t [])) \<longrightarrow>
      distinct (map this (stick_leaves_into_vector t [])))"
proof -
  have leaves: "stick_leaves_into_vector t tree_nodes =
      tree_nodes @ filter (\<lambda>n. Son_pt n = []) (stick_all_tree_nodes_into_vector t [])"
    by (subst stick_leaves_append) (simp add: stick_leaves_filter)
  have sonless: "\<forall>n \<in> set (stick_leaves_into_vector t []). Son_pt n = []"
    by (simp add: stick_leaves_filter)
  have once: "distinct (map this (stick_leaves_into_vector t []))"
    if "distinct (map this (stick_all_tree_nodes_into_vector t []))"
    using that by (simp add: stick_leaves_filter distinct_map_filter)
  show ?thesis
    using traverse_leaves_recording [of member_function t s calls] leaves sonless once
    by blast
qed

theorem traverse_leaves_calls_witness:
  "traverse_leaves (recording (\<lambda>n k. (n, k + (1::nat))))
     (Tree_node 10 20 None (Some 10) OMEGA 0
        [Tree_node 11 21 (Some 10) (Some 10) 0 1 [],
         Tree_node 12 22 (Some 10) (Some 10) 1 1
           [Tree_node 13 23 (Some 12) (Some 10) 0 2 []]]) (0, []) =
     (Tree_node 10 20 None (Some 10) OMEGA 0
        [Tree_node 11 21 (Some 10) (Some 10) 0 1 [],
         Tree_node 12 22 (Some 10) (Some 10) 1 1
           [Tree_node 13 23 (Some 12) (Some 10) 0 2 []]],
      2,
      [Tree_node 11 21 (Some 10) (Some 10) 0 1 [], Tree_node 13 23 (Some 12) (Some 10) 0 2 []]) \<and>
   stick_all_tree_nodes_into_vector
     (Tree_node 10 20 None (Some 10) OMEGA 0
        [Tree_node 11 21 (Some 10) (Some 10) 0 1 [],
         Tree_node 12 22 (Some 10) (Some 10) 1 1
           [Tree_node 13 23 (Some 12) (Some 10) 0 2 []]]) [] =
     [Tree_node 10 20 None (Some 10) OMEGA 0
        [Tree_node 11 21 (Some 10) (Some 10) 0 1 [],
         Tree_node 12 22 (Some 10) (Some 10) 1 1
           [Tree_node 13 23 (Some 12) (Some 10) 0 2 []]],
      Tree_node 11 21 (Some 10) (Some 10) 0 1 [],
      Tree_node 12 22 (Some 10) (Some 10) 1 1 [Tree_node 13 23 (Some 12) (Some 10) 0 2 []],
      Tree_node 13 23 (Some 12) (Some 10) 0 2 []] \<and>
   distinct (map this (stick_leaves_into_vector
     (Tree_node 10 20 None (Some 10) OMEGA 0
        [Tree_node 11 21 (Some 10) (Some 10) 0 1 [],
         Tree_node 12 22 (Some 10) (Some 10) 1 1
           [Tree_node 13 23 (Some 12) (Some 10) 0 2 []]]) []))"
  using traverse_leaves_calls [of "\<lambda>n k. (n, k + (1::nat))"
     "Tree_node 10 20 None (Some 10) OMEGA 0
        [Tree_node 11 21 (Some 10) (Some 10) 0 1 [],
         Tree_node 12 22 (Some 10) (Some 10) 1 1
           [Tree_node 13 23 (Some 12) (Some 10) 0 2 []]]" 0 "[]" "[]"]
  by (simp add: recording_def Let_def)

section \<open>Levels\<close>

lemma level_invariant_sel:
  "level_invariant t =
     list_all (\<lambda>son. Level son = Level t + 1 \<and> Father_pt son = Some (this t) \<and> level_invariant son)
       (Son_pt t)"
  by (cases t) simp

lemma level_invariant_leaf: "Son_pt t = [] \<Longrightarrow> level_invariant t"
  by (subst level_invariant_sel) simp

lemma sint_Level_Suc:
  fixes l :: "32 word"
  assumes "sint l < 2 ^ 31 - 1"
  shows "sint (l + 1) = sint l + 1"
proof -
  have "- (2 ^ 31) \<le> sint l"
    using sint_ge [of l] by simp
  then show ?thesis
    using assms by (simp add: sint_word_ariths signed_take_bit_int_eq_self)
qed

lemma construct_sons_sons:
  "list_all (\<lambda>son. Level son = Level father + 1 \<and> Father_pt son = Some (this father) \<and>
       Root_pt son = Root_pt father \<and> Son_pt son = [])
     (fst (construct_sons construct_son father ps i_son w))"
proof (induction ps arbitrary: i_son w)
  case Nil
  then show ?case by simp
next
  case (Cons p ps)
  obtain this_pt object_pt where p: "p = (this_pt, object_pt)"
    by (cases p)
  obtain son w' where son: "construct_son this_pt object_pt father i_son w = (son, w')"
    by force
  then have "Level son = Level father + 1 \<and> Father_pt son = Some (this father) \<and>
      Root_pt son = Root_pt father \<and> Son_pt son = []"
    by (auto simp: construct_son_def Tree_ctor_son_def)
  moreover obtain sons w'' where
    sons: "construct_sons construct_son father ps (i_son + 1) w' = (sons, w'')"
    by force
  ultimately show ?case
    using Cons.IH [of "i_son + 1" w']
    by (simp add: p son sons)
qed

lemma split_if_required_level_invariant:
  "this (fst (split_if_required construct_son to_be_refined new_sons n w)) = this n \<and>
   Level (fst (split_if_required construct_son to_be_refined new_sons n w)) = Level n \<and>
   Father_pt (fst (split_if_required construct_son to_be_refined new_sons n w)) = Father_pt n \<and>
   (Son_pt n = [] \<longrightarrow>
      level_invariant (fst (split_if_required construct_son to_be_refined new_sons n w)))"
proof -
  let ?sons = "fst (construct_sons construct_son n (new_sons n) 0 w)"
  have "list_all (\<lambda>son. Level son = Level n + 1 \<and> Father_pt son = Some (this n) \<and>
      level_invariant son) ?sons"
    using construct_sons_sons [of n "new_sons n" 0 w]
    by (auto simp: list_all_iff intro: level_invariant_leaf)
  then have "level_invariant (set_Son_pt ?sons n)"
    by (subst level_invariant_sel) (simp add: set_Son_pt_def)
  then show ?thesis
    by (auto simp: split_if_required_def set_Son_pt_def level_invariant_leaf split: prod.split)
qed

lemma list_all2_list_all:
  assumes "list_all2 R xs ys" and "list_all P xs" and "\<And>x y. R x y \<Longrightarrow> P x \<Longrightarrow> Q y"
  shows "list_all Q ys"
  using assms by (induction rule: list_all2_induct) auto

lemma traverse_leaves_level_invariant:
  assumes keeps: "\<And>n s. Son_pt n = [] \<Longrightarrow>
      this (fst (f n s)) = this n \<and> Level (fst (f n s)) = Level n \<and>
      Father_pt (fst (f n s)) = Father_pt n \<and> level_invariant (fst (f n s))"
  shows "this (fst (traverse_leaves f t s)) = this t \<and>
     Level (fst (traverse_leaves f t s)) = Level t \<and>
     Father_pt (fst (traverse_leaves f t s)) = Father_pt t \<and>
     (level_invariant t \<longrightarrow> level_invariant (fst (traverse_leaves f t s)))"
    and "list_all2 (\<lambda>son son'. this son' = this son \<and> Level son' = Level son \<and>
        Father_pt son' = Father_pt son \<and> (level_invariant son \<longrightarrow> level_invariant son'))
      sons (fst (traverse_leaves_sons f sons s))"
  using keeps
proof (induction f t s and f sons s rule: traverse_leaves_traverse_leaves_sons.induct)
  case (1 member_function this_pt object_pt father_pt root_pt son_type level son_pt s)
  let ?node = "Tree_node this_pt object_pt father_pt root_pt son_type level son_pt"
  show ?case
  proof (cases "son_pt = []")
    case True
    then show ?thesis
      using "1.prems" [of ?node s] by simp
  next
    case False
    let ?sons' = "fst (traverse_leaves_sons member_function son_pt s)"
    have result: "fst (traverse_leaves member_function ?node s) =
        Tree_node this_pt object_pt father_pt root_pt son_type level ?sons'"
      using False by (simp split: prod.split)
    have rel: "list_all2 (\<lambda>son son'. this son' = this son \<and> Level son' = Level son \<and>
        Father_pt son' = Father_pt son \<and> (level_invariant son \<longrightarrow> level_invariant son'))
      son_pt ?sons'"
      using False "1.IH" [OF refl _ "1.prems"] by simp
    have "level_invariant (Tree_node this_pt object_pt father_pt root_pt son_type level ?sons')"
      if "level_invariant ?node"
    proof -
      have "list_all (\<lambda>son. Level son = level + 1 \<and> Father_pt son = Some this_pt \<and>
          level_invariant son) son_pt"
        using that by simp
      then have "list_all (\<lambda>son. Level son = level + 1 \<and> Father_pt son = Some this_pt \<and>
          level_invariant son) ?sons'"
        by (rule list_all2_list_all [OF rel]) auto
      then show ?thesis by simp
    qed
    then show ?thesis
      by (simp only: result) simp
  qed
next
  case (2 member_function s)
  then show ?case by simp
next
  case (3 member_function son sons s)
  obtain son' s' where A: "traverse_leaves member_function son s = (son', s')"
    by force
  obtain sons' s'' where B: "traverse_leaves_sons member_function sons s' = (sons', s'')"
    by force
  show ?case
    using "3.IH"(1) [OF "3.prems"] "3.IH"(2) [OF refl A [symmetric] "3.prems"]
    by (simp add: A B)
qed

text \<open>
  C2. A node built by the constructor without a father has level 0 and a null father
  pointer. A node built by the constructor with a father has the father's level plus one
  (in the machine arithmetic of \<open>Level\<close>, and as integers as long as the father's level is
  not the largest one) and points to the father. Each node is, when built, a tree on which
  the level invariant holds. A pass of the split operation over the leaves, whose sons
  are built by \<open>construct_son\<close>, keeps the level and the father of the root of the tree as
  they are and maintains the level invariant on the whole tree.
\<close>

theorem level_invariant_maintained:
  "Level (fst (Tree_ctor this_pt object_pt w)) = 0 \<and>
   Father_pt (fst (Tree_ctor this_pt object_pt w)) = None \<and>
   Level (fst (Tree_ctor_son this_pt object_pt father son_type w)) = Level father + 1 \<and>
   Father_pt (fst (Tree_ctor_son this_pt object_pt father son_type w)) = Some (this father) \<and>
   (sint (Level father) < 2 ^ 31 - 1 \<longrightarrow>
      sint (Level (fst (Tree_ctor_son this_pt object_pt father son_type w))) =
        sint (Level father) + 1) \<and>
   level_invariant (fst (Tree_ctor this_pt object_pt w)) \<and>
   level_invariant (fst (Tree_ctor_son this_pt object_pt father son_type w)) \<and>
   Level (fst (traverse_leaves (split_if_required construct_son to_be_refined new_sons) t w)) =
     Level t \<and>
   Father_pt (fst (traverse_leaves (split_if_required construct_son to_be_refined new_sons) t w)) =
     Father_pt t \<and>
   (level_invariant t \<longrightarrow>
      level_invariant
        (fst (traverse_leaves (split_if_required construct_son to_be_refined new_sons) t w)))"
proof -
  have ctor: "Level (fst (Tree_ctor this_pt object_pt w)) = 0 \<and>
      Father_pt (fst (Tree_ctor this_pt object_pt w)) = None \<and>
      level_invariant (fst (Tree_ctor this_pt object_pt w))"
    by (simp add: Tree_ctor_def)
  have son: "Level (fst (Tree_ctor_son this_pt object_pt father son_type w)) = Level father + 1 \<and>
      Father_pt (fst (Tree_ctor_son this_pt object_pt father son_type w)) = Some (this father) \<and>
      level_invariant (fst (Tree_ctor_son this_pt object_pt father son_type w))"
    by (simp add: Tree_ctor_son_def)
  have no_overflow: "sint (Level (fst (Tree_ctor_son this_pt object_pt father son_type w))) =
      sint (Level father) + 1" if "sint (Level father) < 2 ^ 31 - 1"
    using sint_Level_Suc [OF that] by (simp add: Tree_ctor_son_def)
  have split: "this (fst (traverse_leaves (split_if_required construct_son to_be_refined new_sons) t w)) = this t \<and>
     Level (fst (traverse_leaves (split_if_required construct_son to_be_refined new_sons) t w)) = Level t \<and>
     Father_pt (fst (traverse_leaves (split_if_required construct_son to_be_refined new_sons) t w)) = Father_pt t \<and>
     (level_invariant t \<longrightarrow>
        level_invariant (fst (traverse_leaves (split_if_required construct_son to_be_refined new_sons) t w)))"
    by (rule traverse_leaves_level_invariant) (simp add: split_if_required_level_invariant)
  show ?thesis
    using ctor son no_overflow split by blast
qed

theorem level_invariant_maintained_witness:
  "sint (Level (Tree_node 10 20 None (Some 10) OMEGA 0 [])) < 2 ^ 31 - 1 \<and>
   fst (Tree_ctor_son 11 21 (Tree_node 10 20 None (Some 10) OMEGA 0 []) QuadTreeNames_SW
          initial_world) =
     Tree_node 11 21 (Some 10) (Some 10) QuadTreeNames_SW 1 [] \<and>
   sint (Level (fst (Tree_ctor_son 11 21 (Tree_node 10 20 None (Some 10) OMEGA 0 [])
          QuadTreeNames_SW initial_world))) = 1 \<and>
   level_invariant (Tree_node 10 20 None (Some 10) OMEGA 0 []) \<and>
   fst (traverse_leaves
          (split_if_required construct_son (\<lambda>object_pt. True)
             (\<lambda>n. [(101, 201), (102, 202), (103, 203), (104, 204)]))
          (Tree_node 10 20 None (Some 10) OMEGA 0 []) initial_world) =
     Tree_node 10 20 None (Some 10) OMEGA 0
       [Tree_node 101 201 (Some 10) (Some 10) 0 1 [],
        Tree_node 102 202 (Some 10) (Some 10) 1 1 [],
        Tree_node 103 203 (Some 10) (Some 10) 2 1 [],
        Tree_node 104 204 (Some 10) (Some 10) 3 1 []] \<and>
   level_invariant
     (fst (traverse_leaves
          (split_if_required construct_son (\<lambda>object_pt. True)
             (\<lambda>n. [(101, 201), (102, 202), (103, 203), (104, 204)]))
          (Tree_node 10 20 None (Some 10) OMEGA 0 []) initial_world))"
  using level_invariant_maintained [of 11 21 initial_world
      "Tree_node 10 20 None (Some 10) OMEGA 0 []" QuadTreeNames_SW
      "\<lambda>object_pt. True" "\<lambda>n. [(101, 201), (102, 202), (103, 203), (104, 204)]"
      "Tree_node 10 20 None (Some 10) OMEGA 0 []"]
  by (simp add: Tree_ctor_son_def split_if_required_def construct_son_def set_Son_pt_def)

section \<open>Back-pointers of the elements\<close>

lemma tree_pt_set_tree_pt:
  "tree_pt object_pt' (set_tree_pt object_pt this_pt w) =
     (if object_pt' = object_pt then Some this_pt else tree_pt object_pt' w)"
  by (simp add: tree_pt_def set_tree_pt_def emit_def)

lemma trace_set_tree_pt:
  "trace (set_tree_pt object_pt this_pt w) = trace w @ [Set_tree_pt object_pt this_pt]"
  by (simp add: set_tree_pt_def emit_def)

lemma construct_sons_frame:
  "object_pt \<notin> snd ` set ps \<Longrightarrow>
     tree_pt object_pt (snd (construct_sons construct_son father ps i_son w)) = tree_pt object_pt w"
proof (induction ps arbitrary: i_son w)
  case Nil
  then show ?case by simp
next
  case (Cons p ps)
  obtain this_pt' object_pt' where p: "p = (this_pt', object_pt')"
    by (cases p)
  obtain son w' where son: "construct_son this_pt' object_pt' father i_son w = (son, w')"
    by force
  then have w': "w' = set_tree_pt object_pt' this_pt' w"
    by (auto simp: construct_son_def Tree_ctor_son_def)
  obtain sons w'' where sons: "construct_sons construct_son father ps (i_son + 1) w' = (sons, w'')"
    by force
  show ?case
    using Cons.prems Cons.IH [of "i_son + 1" w']
    by (simp add: p son sons) (simp add: w' tree_pt_set_tree_pt)
qed

lemma construct_sons_back_pointers:
  "distinct (map snd ps) \<Longrightarrow>
     list_all (\<lambda>son. tree_pt (Object_pt son) (snd (construct_sons construct_son father ps i_son w)) =
         Some (this son))
       (fst (construct_sons construct_son father ps i_son w)) \<and>
     map this (fst (construct_sons construct_son father ps i_son w)) = map fst ps \<and>
     map Object_pt (fst (construct_sons construct_son father ps i_son w)) = map snd ps \<and>
     trace (snd (construct_sons construct_son father ps i_son w)) =
       trace w @ map (\<lambda>(this_pt, object_pt). Set_tree_pt object_pt this_pt) ps"
proof (induction ps arbitrary: i_son w)
  case Nil
  then show ?case by simp
next
  case (Cons p ps)
  obtain this_pt object_pt where p: "p = (this_pt, object_pt)"
    by (cases p)
  obtain son w' where son: "construct_son this_pt object_pt father i_son w = (son, w')"
    by force
  then have w': "w' = set_tree_pt object_pt this_pt w"
    and node: "this son = this_pt \<and> Object_pt son = object_pt"
    by (auto simp: construct_son_def Tree_ctor_son_def)
  obtain sons w'' where sons: "construct_sons construct_son father ps (i_son + 1) w' = (sons, w'')"
    by force
  have "object_pt \<notin> snd ` set ps"
    using Cons.prems by (simp add: p)
  then have "tree_pt object_pt w'' = Some this_pt"
    using construct_sons_frame [of object_pt ps father "i_son + 1" w']
    by (simp add: sons) (simp add: w' tree_pt_set_tree_pt)
  then show ?case
    using Cons.prems Cons.IH [of "i_son + 1" w'] node
    by (simp add: p son sons) (simp add: w' trace_set_tree_pt)
qed

text \<open>
  C9. When either constructor of \<open>Tree\<close> is done, the node points to the element it was
  given, the tree pointer of that element is the address of the new node, and the call of
  \<open>set_tree_pt\<close> with that address is the one call the constructor has made on it.
  \<open>construct_son\<close> is the constructor with a father, so the same holds for every son made
  by a split: when the split is done, every new son's element points back to that son
  (the new elements being different objects).
\<close>

theorem constructors_set_tree_pt:
  "tree_pt (Object_pt (fst (Tree_ctor this_pt object_pt w))) (snd (Tree_ctor this_pt object_pt w)) =
     Some (this (fst (Tree_ctor this_pt object_pt w))) \<and>
   Object_pt (fst (Tree_ctor this_pt object_pt w)) = object_pt \<and>
   this (fst (Tree_ctor this_pt object_pt w)) = this_pt \<and>
   added w (snd (Tree_ctor this_pt object_pt w)) = [Set_tree_pt object_pt this_pt] \<and>
   tree_pt (Object_pt (fst (Tree_ctor_son this_pt object_pt father son_type w)))
       (snd (Tree_ctor_son this_pt object_pt father son_type w)) =
     Some (this (fst (Tree_ctor_son this_pt object_pt father son_type w))) \<and>
   Object_pt (fst (Tree_ctor_son this_pt object_pt father son_type w)) = object_pt \<and>
   this (fst (Tree_ctor_son this_pt object_pt father son_type w)) = this_pt \<and>
   added w (snd (Tree_ctor_son this_pt object_pt father son_type w)) =
     [Set_tree_pt object_pt this_pt] \<and>
   construct_son this_pt object_pt father son_type w =
     Tree_ctor_son this_pt object_pt father son_type w \<and>
   (to_be_refined (Object_pt t) \<and> distinct (map snd (new_sons t)) \<longrightarrow>
      list_all
        (\<lambda>son. tree_pt (Object_pt son)
                 (snd (split_if_required construct_son to_be_refined new_sons t w)) =
               Some (this son))
        (Son_pt (fst (split_if_required construct_son to_be_refined new_sons t w))) \<and>
      map this (Son_pt (fst (split_if_required construct_son to_be_refined new_sons t w))) =
        map fst (new_sons t) \<and>
      map Object_pt (Son_pt (fst (split_if_required construct_son to_be_refined new_sons t w))) =
        map snd (new_sons t))"
proof -
  have ctor: "tree_pt (Object_pt (fst (Tree_ctor this_pt object_pt w)))
        (snd (Tree_ctor this_pt object_pt w)) =
      Some (this (fst (Tree_ctor this_pt object_pt w))) \<and>
      Object_pt (fst (Tree_ctor this_pt object_pt w)) = object_pt \<and>
      this (fst (Tree_ctor this_pt object_pt w)) = this_pt \<and>
      added w (snd (Tree_ctor this_pt object_pt w)) = [Set_tree_pt object_pt this_pt]"
    by (simp add: Tree_ctor_def tree_pt_set_tree_pt trace_set_tree_pt added_def)
  have son: "tree_pt (Object_pt (fst (Tree_ctor_son this_pt object_pt father son_type w)))
        (snd (Tree_ctor_son this_pt object_pt father son_type w)) =
      Some (this (fst (Tree_ctor_son this_pt object_pt father son_type w))) \<and>
      Object_pt (fst (Tree_ctor_son this_pt object_pt father son_type w)) = object_pt \<and>
      this (fst (Tree_ctor_son this_pt object_pt father son_type w)) = this_pt \<and>
      added w (snd (Tree_ctor_son this_pt object_pt father son_type w)) =
        [Set_tree_pt object_pt this_pt]"
    by (simp add: Tree_ctor_son_def tree_pt_set_tree_pt trace_set_tree_pt added_def)
  have factory: "construct_son this_pt object_pt father son_type w =
      Tree_ctor_son this_pt object_pt father son_type w"
    by (simp add: construct_son_def)
  have split: "list_all
        (\<lambda>son. tree_pt (Object_pt son)
                 (snd (split_if_required construct_son to_be_refined new_sons t w)) =
               Some (this son))
        (Son_pt (fst (split_if_required construct_son to_be_refined new_sons t w))) \<and>
      map this (Son_pt (fst (split_if_required construct_son to_be_refined new_sons t w))) =
        map fst (new_sons t) \<and>
      map Object_pt (Son_pt (fst (split_if_required construct_son to_be_refined new_sons t w))) =
        map snd (new_sons t)"
    if "to_be_refined (Object_pt t)" and "distinct (map snd (new_sons t))"
  proof -
    obtain sons w' where sons: "construct_sons construct_son t (new_sons t) 0 w = (sons, w')"
      by force
    have "split_if_required construct_son to_be_refined new_sons t w = (set_Son_pt sons t, w')"
      using that(1) by (simp add: split_if_required_def sons)
    then show ?thesis
      using construct_sons_back_pointers [OF that(2), of t 0 w]
      by (simp add: sons set_Son_pt_def)
  qed
  show ?thesis
    using ctor son factory split by blast
qed

theorem constructors_set_tree_pt_witness:
  "distinct (map snd [(101, 201), (102, 202), (103, 203), (104, 204 :: addr)]) \<and>
   tree_pt 20 (snd (Tree_ctor 10 20 initial_world)) = Some 10 \<and>
   fst (Tree_ctor 10 20 initial_world) = Tree_node 10 20 None None OMEGA 0 [] \<and>
   tree_pt 201
     (snd (split_if_required construct_son (\<lambda>object_pt. True)
            (\<lambda>n. [(101, 201), (102, 202), (103, 203), (104, 204)])
            (Tree_node 10 20 None (Some 10) OMEGA 0 []) initial_world)) = Some 101 \<and>
   tree_pt 204
     (snd (split_if_required construct_son (\<lambda>object_pt. True)
            (\<lambda>n. [(101, 201), (102, 202), (103, 203), (104, 204)])
            (Tree_node 10 20 None (Some 10) OMEGA 0 []) initial_world)) = Some 104 \<and>
   map this (Son_pt (fst (split_if_required construct_son (\<lambda>object_pt. True)
            (\<lambda>n. [(101, 201), (102, 202), (103, 203), (104, 204)])
            (Tree_node 10 20 None (Some 10) OMEGA 0 []) initial_world))) = [101, 102, 103, 104]"
  using constructors_set_tree_pt [of 10 20 initial_world
      "Tree_node 10 20 None (Some 10) OMEGA 0 []" QuadTreeNames_SW
      "\<lambda>object_pt. True" "Tree_node 10 20 None (Some 10) OMEGA 0 []"
      "\<lambda>n. [(101, 201), (102, 202), (103, 203), (104, 204)]"]
  by (simp add: Tree_ctor_def split_if_required_def construct_son_def Tree_ctor_son_def
      set_Son_pt_def tree_pt_set_tree_pt)

end
